theory Spec2Isabelle
  imports Complex_Main "HOL-Library.Multiset"
begin

section \<open>Numbers\<close>

text \<open>
  The metrics are Python floats. They are modelled as exact rationals, with one extra
  value for NaN (what \<^verbatim>\<open>np.mean\<close> gives on an empty list). Summation is exact:
  the rounding error of floating-point addition is outside the model.
\<close>

datatype npfloat = Num rat | NaN

text \<open>Rounding to the nearest integer, halves to the even neighbour (\<^verbatim>\<open>np.rint\<close>).\<close>

definition rint :: "rat \<Rightarrow> int" where
  "rint x =
     (let f = \<lfloor>x\<rfloor>; d = x - of_int f
      in if d < 1 / 2 then f
         else if 1 / 2 < d then f + 1
         else if even f then f else f + 1)"

text \<open>\<^verbatim>\<open>np.round(x, d)\<close>: scale by \<open>10 ^ d\<close>, round to an integer, scale back.\<close>

definition np_round :: "npfloat \<Rightarrow> nat \<Rightarrow> npfloat" where
  "np_round x d =
     (case x of
        NaN \<Rightarrow> NaN
      | Num r \<Rightarrow> Num (of_int (rint (r * 10 ^ d)) / 10 ^ d))"

text \<open>\<^verbatim>\<open>np.mean(xs)\<close>: the sum over the count; NaN (and a warning) on an empty list.\<close>

definition np_mean :: "rat list \<Rightarrow> npfloat" where
  "np_mean xs = (if xs = [] then NaN else Num (sum_list xs / of_nat (length xs)))"

section \<open>Configuration, collaborators and the run state\<close>

text \<open>The options of \<^verbatim>\<open>parse_args\<close> that the control loop reads.\<close>

record args =
  alg :: string
  load :: bool
  load_encoder :: bool
  num_epoch :: int
  num_train_batches :: int
  num_valid_batches :: int
  lr_sched :: bool

datatype variant = MAML | Reptile | Neumann | CAVIA | iMAML | FOMAML

datatype exn = ValueError string | External string

datatype val = IntV int | FloatV npfloat

type_synonym row = "(string \<times> val) list"

datatype split = TrainSplit | ValSplit | TestSplit

text \<open>
  Every call that leaves \<^verbatim>\<open>imaml.py\<close> is recorded, in order, as an event.
  \<open>OuterLoop b t\<close> is \<^verbatim>\<open>model.outer_loop(b, is_train=t)\<close>.
\<close>

datatype 'b event =
    Construct variant
  | Load
  | LoadEncoder
  | Loaders
  | OuterLoop 'b bool
  | Dict2tsv row
  | Save
  | EmptyCache
  | LrSched

text \<open>
  The collaborators (the \<^verbatim>\<open>gbml\<close> learners, \<^verbatim>\<open>torchmeta\<close>, \<^verbatim>\<open>utils\<close>) act on a
  world \<open>'w\<close>: the learner's parameters and optimiser, the files. Each call returns the
  new world together with its value or the exception it raised.
  \<open>batches C sp e\<close> is the sequence the loader of split \<open>sp\<close> yields when it is
  iterated in epoch \<open>e\<close>.
\<close>

record ('w, 'b) collab =
  construct :: "variant \<Rightarrow> 'w \<Rightarrow> (exn + unit) \<times> 'w"
  model_load :: "'w \<Rightarrow> (exn + unit) \<times> 'w"
  model_load_encoder :: "'w \<Rightarrow> (exn + unit) \<times> 'w"
  outer_loop_train :: "'b \<Rightarrow> 'w \<Rightarrow> (exn + (rat \<times> rat \<times> rat)) \<times> 'w"
  outer_loop_eval :: "'b \<Rightarrow> 'w \<Rightarrow> (exn + (rat \<times> rat)) \<times> 'w"
  make_loaders :: "'w \<Rightarrow> (exn + unit) \<times> 'w"
  batches :: "split \<Rightarrow> int \<Rightarrow> 'b list"
  dict2tsv :: "row \<Rightarrow> 'w \<Rightarrow> (exn + unit) \<times> 'w"
  model_save :: "'w \<Rightarrow> (exn + unit) \<times> 'w"
  model_lr_sched :: "'w \<Rightarrow> (exn + unit) \<times> 'w"

text \<open>The state of a run: the world and the events so far.\<close>

type_synonym ('w, 'b) st = "'w \<times> 'b event list"

text \<open>One call of a collaborator: the event is recorded, the world replaced.\<close>

definition call :: "'b event \<Rightarrow> ('w \<Rightarrow> (exn + 'a) \<times> 'w) \<Rightarrow> ('w, 'b) st \<Rightarrow> (exn + 'a) \<times> ('w, 'b) st" where
  "call ev f s = (case f (fst s) of (r, w') \<Rightarrow> (r, (w', snd s @ [ev])))"

section \<open>The phases\<close>

text \<open>
  The loop of \<^verbatim>\<open>train\<close>. \<open>idx\<close> is \<^verbatim>\<open>batch_idx\<close>, the list is what the
  iterator has not yielded yet, the three lists are \<^verbatim>\<open>loss_list\<close>,
  \<^verbatim>\<open>acc_list\<close> and \<^verbatim>\<open>grad_list\<close>. The result carries the rest of the
  iterator. The progress bar only displays and is left out.
\<close>

fun train_loop ::
  "('w, 'b) collab \<Rightarrow> int \<Rightarrow> int \<Rightarrow> 'b list \<Rightarrow> rat list \<times> rat list \<times> rat list \<Rightarrow>
   ('w, 'b) st \<Rightarrow> (exn + ((rat list \<times> rat list \<times> rat list) \<times> 'b list)) \<times> ('w, 'b) st" where
  "train_loop C k idx [] acc s = (Inr (acc, []), s)"
| "train_loop C k idx (b # bs) acc s =
     (case call (OuterLoop b True) (outer_loop_train C b) s of
        (Inl e, s') \<Rightarrow> (Inl e, s')
      | (Inr (loss_log, acc_log, grad_log), s') \<Rightarrow>
          (case acc of (loss_list, acc_list, grad_list) \<Rightarrow>
            (let acc' = (loss_list @ [loss_log], acc_list @ [acc_log], grad_list @ [grad_log])
             in if idx \<ge> k then (Inr (acc', bs), s')
                else train_loop C k (idx + 1) bs acc' s')))"

definition train_summary :: "rat list \<times> rat list \<times> rat list \<Rightarrow> npfloat \<times> npfloat \<times> npfloat" where
  "train_summary acc =
     (case acc of (loss_list, acc_list, grad_list) \<Rightarrow>
        (np_round (np_mean loss_list) 4, np_round (np_mean acc_list) 4,
         np_round (np_mean grad_list) 4))"

definition train ::
  "args \<Rightarrow> ('w, 'b) collab \<Rightarrow> 'b list \<Rightarrow> ('w, 'b) st \<Rightarrow>
   (exn + (npfloat \<times> npfloat \<times> npfloat)) \<times> ('w, 'b) st" where
  "train a C dataloader s =
     (case train_loop C (num_train_batches a) 0 dataloader ([], [], []) s of
        (Inl e, s') \<Rightarrow> (Inl e, s')
      | (Inr (acc, rest), s') \<Rightarrow> (Inr (train_summary acc), s'))"

text \<open>The loop of \<^verbatim>\<open>valid\<close>, with two lists.\<close>

fun valid_loop ::
  "('w, 'b) collab \<Rightarrow> int \<Rightarrow> int \<Rightarrow> 'b list \<Rightarrow> rat list \<times> rat list \<Rightarrow>
   ('w, 'b) st \<Rightarrow> (exn + ((rat list \<times> rat list) \<times> 'b list)) \<times> ('w, 'b) st" where
  "valid_loop C k idx [] acc s = (Inr (acc, []), s)"
| "valid_loop C k idx (b # bs) acc s =
     (case call (OuterLoop b False) (outer_loop_eval C b) s of
        (Inl e, s') \<Rightarrow> (Inl e, s')
      | (Inr (loss_log, acc_log), s') \<Rightarrow>
          (case acc of (loss_list, acc_list) \<Rightarrow>
            (let acc' = (loss_list @ [loss_log], acc_list @ [acc_log])
             in if idx \<ge> k then (Inr (acc', bs), s')
                else valid_loop C k (idx + 1) bs acc' s')))"

definition valid_summary :: "rat list \<times> rat list \<Rightarrow> npfloat \<times> npfloat" where
  "valid_summary acc =
     (case acc of (loss_list, acc_list) \<Rightarrow>
        (np_round (np_mean loss_list) 4, np_round (np_mean acc_list) 4))"

definition valid ::
  "args \<Rightarrow> ('w, 'b) collab \<Rightarrow> 'b list \<Rightarrow> ('w, 'b) st \<Rightarrow>
   (exn + (npfloat \<times> npfloat)) \<times> ('w, 'b) st" where
  "valid a C dataloader s =
     (case valid_loop C (num_valid_batches a) 0 dataloader ([], []) s of
        (Inl e, s') \<Rightarrow> (Inl e, s')
      | (Inr (acc, rest), s') \<Rightarrow> (Inr (valid_summary acc), s'))"

section \<open>One epoch\<close>

text \<open>
  \<^verbatim>\<open>res[k] = v\<close> on an \<^verbatim>\<open>OrderedDict\<close>: a new key goes to the end, a key
  already there keeps its place and takes the new value.
\<close>

fun od_set :: "row \<Rightarrow> string \<Rightarrow> val \<Rightarrow> row" where
  "od_set [] k v = [(k, v)]"
| "od_set ((k', v') # r) k v =
     (if k' = k then (k, v) # r else (k', v') # od_set r k v)"

text \<open>\<^verbatim>\<open>run_epoch\<close>, before the decorator. The \<^verbatim>\<open>print\<close> is left out.\<close>

definition run_epoch ::
  "int \<Rightarrow> args \<Rightarrow> ('w, 'b) collab \<Rightarrow> 'b list \<Rightarrow> 'b list \<Rightarrow> 'b list \<Rightarrow> ('w, 'b) st \<Rightarrow>
   (exn + row) \<times> ('w, 'b) st" where
  "run_epoch epoch a C train_loader valid_loader test_loader s =
     (case train a C train_loader s of
        (Inl e, s1) \<Rightarrow> (Inl e, s1)
      | (Inr (train_loss, train_acc, train_grad), s1) \<Rightarrow>
     (case valid a C valid_loader s1 of
        (Inl e, s2) \<Rightarrow> (Inl e, s2)
      | (Inr (valid_loss, valid_acc), s2) \<Rightarrow>
     (case valid a C test_loader s2 of
        (Inl e, s3) \<Rightarrow> (Inl e, s3)
      | (Inr (test_loss, test_acc), s3) \<Rightarrow>
        (let res = [];
             res = od_set res ''epoch'' (IntV epoch);
             res = od_set res ''train_loss'' (FloatV train_loss);
             res = od_set res ''train_acc'' (FloatV train_acc);
             res = od_set res ''train_grad'' (FloatV train_grad);
             res = od_set res ''valid_loss'' (FloatV valid_loss);
             res = od_set res ''valid_acc'' (FloatV valid_acc);
             res = od_set res ''test_loss'' (FloatV test_loss);
             res = od_set res ''test_acc'' (FloatV test_acc)
         in (Inr res, s3)))))"

section \<open>The best tracker\<close>

text \<open>
  Modelled from the spec: the class \<^verbatim>\<open>BestTracker\<close> of \<^verbatim>\<open>utils\<close>, which is not
  among the sources. Its state is the best validation accuracy with the epoch that
  reached it, and starts at the worst possible value (\<open>Worst\<close>, below every accuracy).
\<close>

datatype best_state = Worst | Best rat int

text \<open>
  Modelled from the spec: the comparison of \<^verbatim>\<open>BestTracker\<close>, strictly greater on
  the validation accuracy. No comparison with NaN holds.
\<close>

definition best_update :: "best_state \<Rightarrow> int \<Rightarrow> npfloat \<Rightarrow> bool \<times> best_state" where
  "best_update bs e x =
     (case x of
        NaN \<Rightarrow> (False, bs)
      | Num v \<Rightarrow>
          (case bs of
             Worst \<Rightarrow> (True, Best v e)
           | Best b e' \<Rightarrow> if b < v then (True, Best v e) else (False, bs)))"



section \<open>The driver\<close>

text \<open>The chain of comparisons at the head of \<^verbatim>\<open>main\<close>.\<close>

definition select_variant :: "string \<Rightarrow> variant option" where
  "select_variant name =
     (if name = ''MAML'' then Some MAML
      else if name = ''Reptile'' then Some Reptile
      else if name = ''Neumann'' then Some Neumann
      else if name = ''CAVIA'' then Some CAVIA
      else if name = ''iMAML'' then Some iMAML
      else if name = ''FOMAML'' then Some FOMAML
      else None)"





section \<open>A stub learner\<close>

text \<open>
  The stub of the end-to-end scenario: every training batch gives loss 1, accuracy 0.5
  and gradient norm 0, every evaluation batch gives loss 2 and accuracy 0.3. The world
  counts the training updates; each loader yields five batches.
\<close>

definition stub :: "(nat, nat) collab" where
  "stub =
     \<lparr> construct = (\<lambda>v w. (Inr (), w)),
       model_load = (\<lambda>w. (Inr (), w)),
       model_load_encoder = (\<lambda>w. (Inr (), w)),
       outer_loop_train = (\<lambda>b w. (Inr (1, 1 / 2, 0), Suc w)),
       outer_loop_eval = (\<lambda>b w. (Inr (2, 3 / 10), w)),
       make_loaders = (\<lambda>w. (Inr (), w)),
       batches = (\<lambda>sp e. [0, 1, 2, 3, 4]),
       dict2tsv = (\<lambda>r w. (Inr (), w)),
       model_save = (\<lambda>w. (Inr (), w)),
       model_lr_sched = (\<lambda>w. (Inr (), w)) \<rparr>"

definition stub_args :: args where
  "stub_args =
     \<lparr> alg = ''MAML'', load = False, load_encoder = False, num_epoch = 1,
       num_train_batches = 2, num_valid_batches = 1, lr_sched = False \<rparr>"

section \<open>Specification-side notions\<close>

text \<open>
  The number of batches a phase asks for when its budget is \<open>k\<close> and \<^verbatim>\<open>batch_idx\<close>
  is \<open>idx\<close>: the budget plus one, and one at least.
\<close>

definition phase_len :: "int \<Rightarrow> int \<Rightarrow> nat" where
  "phase_len k idx = nat (max 1 (k - idx + 1))"

text \<open>
  The metrics and the final world when the training batches are fed to the learner in
  order (up to the first exception).
\<close>

fun feed_train :: "('w, 'b) collab \<Rightarrow> 'b list \<Rightarrow> 'w \<Rightarrow> (rat \<times> rat \<times> rat) list \<times> 'w" where
  "feed_train C [] w = ([], w)"
| "feed_train C (b # bs) w =
     (case outer_loop_train C b w of
        (Inl e, w') \<Rightarrow> ([], w')
      | (Inr m, w') \<Rightarrow> (case feed_train C bs w' of (ms, w'') \<Rightarrow> (m # ms, w'')))"

text \<open>The same for evaluation batches.\<close>

fun feed_eval :: "('w, 'b) collab \<Rightarrow> 'b list \<Rightarrow> 'w \<Rightarrow> (rat \<times> rat) list \<times> 'w" where
  "feed_eval C [] w = ([], w)"
| "feed_eval C (b # bs) w =
     (case outer_loop_eval C b w of
        (Inl e, w') \<Rightarrow> ([], w')
      | (Inr m, w') \<Rightarrow> (case feed_eval C bs w' of (ms, w'') \<Rightarrow> (m # ms, w'')))"

text \<open>The learner raises no exception.\<close>

definition learner_total :: "('w, 'b) collab \<Rightarrow> bool" where
  "learner_total C \<longleftrightarrow>
     (\<forall>b w. \<not> isl (fst (outer_loop_train C b w))) \<and> (\<forall>b w. \<not> isl (fst (outer_loop_eval C b w)))"



text \<open>
  Modelled from the spec: the learners of the package \<^verbatim>\<open>gbml\<close>, which are not among
  the sources. A learner has parameters \<open>'p\<close>. A training step may replace them and
  gives loss, accuracy and gradient norm; an evaluation step reads them and gives loss
  and accuracy.
\<close>

record ('p, 'b) meta_learner =
  meta_update :: "'b \<Rightarrow> 'p \<Rightarrow> (exn + (rat \<times> rat \<times> rat)) \<times> 'p"
  evaluate :: "'b \<Rightarrow> 'p \<Rightarrow> exn + (rat \<times> rat)"

text \<open>
  Modelled from the spec: \<^verbatim>\<open>outer_loop\<close> of such a learner. With
  \<^verbatim>\<open>is_train=False\<close> the parameters stay as they are.
\<close>

definition spec_learner :: "('p, 'b) meta_learner \<Rightarrow> ('p, 'b) collab \<Rightarrow> ('p, 'b) collab" where
  "spec_learner L C =
     C\<lparr> outer_loop_train := meta_update L,
        outer_loop_eval := (\<lambda>b p. (evaluate L b p, p)) \<rparr>"

text \<open>The stub of the end-to-end scenario as such a learner.\<close>

definition stub_learner :: "(nat, nat) meta_learner" where
  "stub_learner =
     \<lparr> meta_update = (\<lambda>b p. (Inr (1, 1 / 2, 0), Suc p)),
       evaluate = (\<lambda>b p. Inr (2, 3 / 10)) \<rparr>"

text \<open>
  Modelled from the spec: the tracker over the epochs \<open>e\<close>, \<open>e + 1\<close>, ... of one run,
  given the validation accuracy of each; the flags it reports and its last state.
\<close>

fun track_seq :: "best_state \<Rightarrow> int \<Rightarrow> npfloat list \<Rightarrow> bool list \<times> best_state" where
  "track_seq bs e [] = ([], bs)"
| "track_seq bs e (x # xs) =
     (case best_update bs e x of
        (is_best, bs') \<Rightarrow>
          (case track_seq bs' (e + 1) xs of (fs, bs'') \<Rightarrow> (is_best # fs, bs'')))"

text \<open>\<open>v\<close> is strictly greater than the best value of the state.\<close>

definition above :: "best_state \<Rightarrow> rat \<Rightarrow> bool" where
  "above bs v = (case bs of Worst \<Rightarrow> True | Best b e \<Rightarrow> b < v)"



text \<open>The names of the learner classes that \<^verbatim>\<open>imaml.py\<close> imports.\<close>

fun variant_name :: "variant \<Rightarrow> string" where
  "variant_name MAML = ''MAML''"
| "variant_name Reptile = ''Reptile''"
| "variant_name Neumann = ''Neumann''"
| "variant_name CAVIA = ''CAVIA''"
| "variant_name iMAML = ''iMAML''"
| "variant_name FOMAML = ''FOMAML''"

section \<open>The loops\<close>

lemma phase_len_stop: "k \<le> idx \<Longrightarrow> phase_len k idx = 1"
  by (simp add: phase_len_def max_def)

lemma phase_len_step: "idx < k \<Longrightarrow> phase_len k idx = Suc (phase_len k (idx + 1))"
  by (simp add: phase_len_def max_def)

lemma train_loop_run:
  assumes "\<forall>b w. \<not> isl (fst (outer_loop_train C b w))"
  shows "train_loop C k idx bs (ll, al, gl) (w, tr) =
     (case feed_train C (take (phase_len k idx) bs) w of
        (ms, w') \<Rightarrow>
          (Inr ((ll @ map fst ms, al @ map (fst \<circ> snd) ms, gl @ map (snd \<circ> snd) ms),
                drop (phase_len k idx) bs),
           (w', tr @ map (\<lambda>b. OuterLoop b True) (take (phase_len k idx) bs))))"
proof (induction bs arbitrary: idx ll al gl w tr)
  case Nil
  then show ?case by simp
next
  case (Cons b bs)
  obtain m w1 where ol: "outer_loop_train C b w = (Inr m, w1)"
    using assms by (metis isl_def prod.collapse sum.collapse(2))
  obtain l a g where m: "m = (l, a, g)" by (cases m) auto
  show ?case
  proof (cases "k \<le> idx")
    case True
    then show ?thesis using ol m by (simp add: phase_len_stop call_def)
  next
    case False
    then have st: "phase_len k idx = Suc (phase_len k (idx + 1))"
      by (simp add: phase_len_step)
    show ?thesis using False ol m Cons.IH[of "idx + 1" "ll @ [l]" "al @ [a]" "gl @ [g]" w1 "tr @ [OuterLoop b True]"]
      by (simp add: st call_def split: prod.splits)
  qed
qed

lemma valid_loop_run:
  assumes "\<forall>b w. \<not> isl (fst (outer_loop_eval C b w))"
  shows "valid_loop C k idx bs (ll, al) (w, tr) =
     (case feed_eval C (take (phase_len k idx) bs) w of
        (ms, w') \<Rightarrow>
          (Inr ((ll @ map fst ms, al @ map snd ms), drop (phase_len k idx) bs),
           (w', tr @ map (\<lambda>b. OuterLoop b False) (take (phase_len k idx) bs))))"
proof (induction bs arbitrary: idx ll al w tr)
  case Nil
  then show ?case by simp
next
  case (Cons b bs)
  obtain m w1 where ol: "outer_loop_eval C b w = (Inr m, w1)"
    using assms by (metis isl_def prod.collapse sum.collapse(2))
  obtain l a where m: "m = (l, a)" by (cases m) auto
  show ?case
  proof (cases "k \<le> idx")
    case True
    then show ?thesis using ol m by (simp add: phase_len_stop call_def)
  next
    case False
    then have st: "phase_len k idx = Suc (phase_len k (idx + 1))"
      by (simp add: phase_len_step)
    show ?thesis using False ol m Cons.IH[of "idx + 1" "ll @ [l]" "al @ [a]" w1 "tr @ [OuterLoop b False]"]
      by (simp add: st call_def split: prod.splits)
  qed
qed

lemma length_feed_train:
  "\<forall>b w. \<not> isl (fst (outer_loop_train C b w)) \<Longrightarrow> length (fst (feed_train C bs w)) = length bs"
proof (induction bs arbitrary: w)
  case Nil
  then show ?case by simp
next
  case (Cons b bs)
  obtain m w1 where ol: "outer_loop_train C b w = (Inr m, w1)"
    using Cons.prems by (metis isl_def prod.collapse sum.collapse(2))
  then show ?case using Cons.IH[OF Cons.prems, of w1] by (auto split: prod.splits)
qed

lemma length_feed_eval:
  "\<forall>b w. \<not> isl (fst (outer_loop_eval C b w)) \<Longrightarrow> length (fst (feed_eval C bs w)) = length bs"
proof (induction bs arbitrary: w)
  case Nil
  then show ?case by simp
next
  case (Cons b bs)
  obtain m w1 where ol: "outer_loop_eval C b w = (Inr m, w1)"
    using Cons.prems by (metis isl_def prod.collapse sum.collapse(2))
  then show ?case using Cons.IH[OF Cons.prems, of w1] by (auto split: prod.splits)
qed




lemma valid_loop_frame:
  "fst (snd (valid_loop (spec_learner L C) k idx bs acc (p, tr))) = p"
proof (induction bs arbitrary: idx acc tr)
  case Nil
  then show ?case by simp
next
  case (Cons b bs)
  show ?case
  proof (cases "evaluate L b p")
    case (Inl e)
    then show ?thesis by (simp add: call_def spec_learner_def)
  next
    case (Inr m)
    then show ?thesis using Cons.IH
      by (cases m; cases acc) (simp add: call_def spec_learner_def Let_def)
  qed
qed

lemma valid_loop_trace_free:
  "fst (valid_loop (spec_learner L C) k idx bs acc (p, tr)) =
   fst (valid_loop (spec_learner L C) k idx bs acc (p, tr2))"
proof (induction bs arbitrary: idx acc tr tr2)
  case Nil
  then show ?case by simp
next
  case (Cons b bs)
  show ?case
  proof (cases "evaluate L b p")
    case (Inl e)
    then show ?thesis by (simp add: call_def spec_learner_def)
  next
    case (Inr m)
    then show ?thesis using Cons.IH
      by (cases m; cases acc) (simp add: call_def spec_learner_def Let_def)
  qed
qed

lemma above_update:
  "above (snd (best_update bs e (Num v))) x \<longleftrightarrow> above bs x \<and> v < x"
  by (auto simp: above_def best_update_def split: best_state.splits)

lemma fst_best_update: "fst (best_update bs e (Num v)) = above bs v"
  by (auto simp: above_def best_update_def split: best_state.splits)

lemma track_seq_flags:
  "i < length vs \<Longrightarrow>
   fst (track_seq bs e (map Num vs)) ! i = (above bs (vs ! i) \<and> (\<forall>j<i. vs ! j < vs ! i))"
proof (induction vs arbitrary: bs e i)
  case Nil
  then show ?case by simp
next
  case (Cons v vs)
  obtain f bs' where u: "best_update bs e (Num v) = (f, bs')" by (cases "best_update bs e (Num v)")
  obtain fs bs'' where t: "track_seq bs' (e + 1) (map Num vs) = (fs, bs'')"
    by (cases "track_seq bs' (e + 1) (map Num vs)")
  show ?case
  proof (cases i)
    case 0
    then show ?thesis using u t fst_best_update[of bs e v] by simp
  next
    case (Suc n)
    then have n: "n < length vs" using Cons.prems by simp
    have "fst (track_seq bs e (map Num (v # vs))) ! i = fs ! n"
      using u t Suc by simp
    also have "\<dots> = (above bs' (vs ! n) \<and> (\<forall>j<n. vs ! j < vs ! n))"
      using Cons.IH[OF n, of bs' "e + 1"] t by simp
    also have "\<dots> = (above bs (vs ! n) \<and> v < vs ! n \<and> (\<forall>j<n. vs ! j < vs ! n))"
      using above_update[of bs e v "vs ! n"] u by simp
    also have "\<dots> = (above bs ((v # vs) ! i) \<and> (\<forall>j<i. (v # vs) ! j < (v # vs) ! i))"
      using Suc by (auto simp: less_Suc_eq_0_disj)
    finally show ?thesis .
  qed
qed













lemma select_variant_name: "select_variant (variant_name v) = Some v"
  by (cases v) (simp_all add: select_variant_def)





lemma train_run:
  assumes "\<forall>b w. \<not> isl (fst (outer_loop_train C b w))"
  shows "train a C bs (w, tr) =
     (case feed_train C (take (phase_len (num_train_batches a) 0) bs) w of
        (ms, w') \<Rightarrow>
          (Inr (train_summary (map fst ms, map (fst \<circ> snd) ms, map (snd \<circ> snd) ms)),
           (w', tr @ map (\<lambda>b. OuterLoop b True) (take (phase_len (num_train_batches a) 0) bs))))"
  using train_loop_run[OF assms, of "num_train_batches a" 0 bs "[]" "[]" "[]" w tr]
  by (simp add: train_def split: prod.splits)

lemma valid_run:
  assumes "\<forall>b w. \<not> isl (fst (outer_loop_eval C b w))"
  shows "valid a C bs (w, tr) =
     (case feed_eval C (take (phase_len (num_valid_batches a) 0) bs) w of
        (ms, w') \<Rightarrow>
          (Inr (valid_summary (map fst ms, map snd ms)),
           (w', tr @ map (\<lambda>b. OuterLoop b False) (take (phase_len (num_valid_batches a) 0) bs))))"
  using valid_loop_run[OF assms, of "num_valid_batches a" 0 bs "[]" "[]" w tr]
  by (simp add: valid_def split: prod.splits)

section \<open>The claims\<close>

text \<open>
  C1. With a budget \<open>k \<ge> 0\<close>, a stream of at least \<open>k + 2\<close> batches and a learner
  that raises nothing, the loop of either phase calls \<^verbatim>\<open>outer_loop\<close> on exactly the first
  \<open>k + 1\<close> batches, records \<open>k + 1\<close> metrics, and leaves the iterator at batch \<open>k + 1\<close>,
  which is never asked for
\<close>

theorem phase_runs_budget_plus_one:
  assumes "0 \<le> k" and "k + 2 \<le> int (length bs)" and "learner_total C"
  shows "\<exists>acc acc' w1 w2.
     train_loop C k 0 bs ([], [], []) (w, tr) =
       (Inr (acc, drop (nat k + 1) bs),
        (w1, tr @ map (\<lambda>b. OuterLoop b True) (take (nat k + 1) bs))) \<and>
     length (fst acc) = nat k + 1 \<and>
     valid_loop C k 0 bs ([], []) (w, tr) =
       (Inr (acc', drop (nat k + 1) bs),
        (w2, tr @ map (\<lambda>b. OuterLoop b False) (take (nat k + 1) bs))) \<and>
     length (fst acc') = nat k + 1 \<and>
     drop (nat k + 1) bs \<noteq> []"
proof -
  have n: "phase_len k 0 = nat k + 1"
    using assms(1) by (simp add: phase_len_def max_def nat_add_distrib)
  have tot: "\<forall>b w. \<not> isl (fst (outer_loop_train C b w))" "\<forall>b w. \<not> isl (fst (outer_loop_eval C b w))"
    using assms(3) by (simp_all add: learner_total_def)
  have len: "nat k + 1 \<le> length bs" "nat k + 1 < length bs"
    using assms(1,2) by linarith+
  obtain ms w1 where ft: "feed_train C (take (nat k + 1) bs) w = (ms, w1)"
    by (cases "feed_train C (take (nat k + 1) bs) w")
  obtain ms' w2 where fe: "feed_eval C (take (nat k + 1) bs) w = (ms', w2)"
    by (cases "feed_eval C (take (nat k + 1) bs) w")
  have l1: "length ms = nat k + 1"
    using length_feed_train[OF tot(1), of "take (nat k + 1) bs" w] ft len by simp
  have l2: "length ms' = nat k + 1"
    using length_feed_eval[OF tot(2), of "take (nat k + 1) bs" w] fe len by simp
  have t: "train_loop C k 0 bs ([], [], []) (w, tr) =
       (Inr ((map fst ms, map (fst \<circ> snd) ms, map (snd \<circ> snd) ms), drop (nat k + 1) bs),
        (w1, tr @ map (\<lambda>b. OuterLoop b True) (take (nat k + 1) bs)))"
    using train_loop_run[OF tot(1), of k 0 bs "[]" "[]" "[]" w tr] ft by (simp add: n)
  have v: "valid_loop C k 0 bs ([], []) (w, tr) =
       (Inr ((map fst ms', map snd ms'), drop (nat k + 1) bs),
        (w2, tr @ map (\<lambda>b. OuterLoop b False) (take (nat k + 1) bs)))"
    using valid_loop_run[OF tot(2), of k 0 bs "[]" "[]" w tr] fe by (simp add: n)
  show ?thesis using t v l1 l2 len by simp
qed

theorem phase_runs_budget_plus_one_witness:
  "(0::int) \<le> 2 \<and> (2::int) + 2 \<le> int (length [0, 1, 2, 3, 4 :: nat]) \<and> learner_total stub \<and>
   (\<exists>acc acc' w1 w2.
     train_loop stub 2 0 [0, 1, 2, 3, 4] ([], [], []) (0, []) =
       (Inr (acc, [3, 4]), (w1, [OuterLoop 0 True, OuterLoop 1 True, OuterLoop 2 True])) \<and>
     length (fst acc) = 3 \<and>
     valid_loop stub 2 0 [0, 1, 2, 3, 4] ([], []) (0, []) =
       (Inr (acc', [3, 4]), (w2, [OuterLoop 0 False, OuterLoop 1 False, OuterLoop 2 False])) \<and>
     length (fst acc') = 3)"
proof -
  have h1: "(0::int) \<le> 2" by simp
  have h2: "(2::int) + 2 \<le> int (length [0, 1, 2, 3, 4 :: nat])" by simp
  have h3: "learner_total stub" by (simp add: learner_total_def stub_def)
  show ?thesis
    using h1 h2 h3 phase_runs_budget_plus_one[OF h1 h2 h3, of "0" "[]"]
    by (simp add: numeral_eq_Suc)
qed



text \<open>
  C3, amended. On a stream that yields no batch, either phase raises nothing: it
  returns a summary whose every field is NaN, and the learner and the trace are as before
\<close>

theorem empty_phase_gives_nan:
  "train a C [] s = (Inr (NaN, NaN, NaN), s) \<and> valid a C [] s = (Inr (NaN, NaN), s)"
  by (simp add: train_def valid_def train_summary_def valid_summary_def np_mean_def np_round_def)

theorem empty_phase_gives_nan_witness:
  "train stub_args stub [] (7, [OuterLoop 0 False]) = (Inr (NaN, NaN, NaN), (7, [OuterLoop 0 False])) \<and>
   valid stub_args stub [] (7, [OuterLoop 0 False]) = (Inr (NaN, NaN), (7, [OuterLoop 0 False]))"
  using empty_phase_gives_nan[of stub_args stub "(7, [OuterLoop 0 False])"] by simp

text \<open>
  C3, as the spec words it, fails: on an empty stream the stub run returns NaN in every
  field and raises nothing.
\<close>

theorem empty_phase_counterexample:
  "train stub_args stub [] (0, []) = (Inr (NaN, NaN, NaN), (0, [])) \<and>
   valid stub_args stub [] (0, []) = (Inr (NaN, NaN), (0, [])) \<and>
   \<not> isl (fst (train stub_args stub [] (0, []))) \<and>
   \<not> isl (fst (valid stub_args stub [] (0, [])))"
  by (simp add: train_def valid_def train_summary_def valid_summary_def np_mean_def np_round_def)

text \<open>
  C4. With a learner as the spec describes it, the evaluation phase leaves the
  parameters as they were, and running it again from the state it left gives the same
  per-batch metrics and the same summary
\<close>

theorem eval_phase_read_only:
  "fst (snd (valid a (spec_learner L C) bs (p, tr))) = p \<and>
   fst (snd (valid_loop (spec_learner L C) k 0 bs ([], []) (p, tr))) = p \<and>
   fst (valid_loop (spec_learner L C) k 0 bs ([], [])
          (snd (valid_loop (spec_learner L C) k 0 bs ([], []) (p, tr)))) =
   fst (valid_loop (spec_learner L C) k 0 bs ([], []) (p, tr)) \<and>
   fst (valid a (spec_learner L C) bs (snd (valid a (spec_learner L C) bs (p, tr)))) =
   fst (valid a (spec_learner L C) bs (p, tr))"
proof -
  let ?C = "spec_learner L C"
  obtain r w' tr' where v: "valid_loop ?C k 0 bs ([], []) (p, tr) = (r, (w', tr'))"
    by (metis prod.collapse)
  have w: "w' = p" using valid_loop_frame[of L C k 0 bs "([], [])" p tr] v by simp
  have r: "fst (valid_loop ?C k 0 bs ([], []) (p, tr')) = r"
    using valid_loop_trace_free[of L C k 0 bs "([], [])" p tr' tr] v by simp
  obtain r2 w2 tr2 where v2: "valid_loop ?C (num_valid_batches a) 0 bs ([], []) (p, tr) = (r2, (w2, tr2))"
    by (metis prod.collapse)
  have w2: "w2 = p" using valid_loop_frame[of L C "num_valid_batches a" 0 bs "([], [])" p tr] v2 by simp
  have r2: "fst (valid_loop ?C (num_valid_batches a) 0 bs ([], []) (p, tr2)) = r2"
    using valid_loop_trace_free[of L C "num_valid_batches a" 0 bs "([], [])" p tr2 tr] v2 by simp
  have s: "valid a ?C bs (p, tr) = (case r2 of Inl e \<Rightarrow> Inl e | Inr (acc, rest) \<Rightarrow> Inr (valid_summary acc), (p, tr2))"
    using v2 w2 by (simp add: valid_def split: sum.splits prod.splits)
  obtain x y where v3: "valid_loop ?C (num_valid_batches a) 0 bs ([], []) (p, tr2) = (r2, (x, y))"
    using r2 by (metis prod.collapse)
  have s2: "fst (valid a ?C bs (p, tr2)) = (case r2 of Inl e \<Rightarrow> Inl e | Inr (acc, rest) \<Rightarrow> Inr (valid_summary acc))"
    using v3 by (simp add: valid_def split: sum.splits prod.splits)
  show ?thesis using v w r s s2 by simp
qed

theorem eval_phase_read_only_witness:
  "valid stub_args (spec_learner stub_learner stub) [0, 1, 2] (5, []) =
     (Inr (Num 2, Num (3 / 10)), (5, [OuterLoop 0 False, OuterLoop 1 False])) \<and>
   fst (valid stub_args (spec_learner stub_learner stub) [0, 1, 2]
          (snd (valid stub_args (spec_learner stub_learner stub) [0, 1, 2] (5, [])))) =
     Inr (Num 2, Num (3 / 10))"
proof -
  have v: "valid stub_args (spec_learner stub_learner stub) [0, 1, 2] (5, []) =
     (Inr (Num 2, Num (3 / 10)), (5, [OuterLoop 0 False, OuterLoop 1 False]))"
    by code_simp
  show ?thesis
    using v eval_phase_read_only[of stub_args stub_learner stub "[0, 1, 2]" 5 "[]" 0]
    by simp
qed

text \<open>
  C5. In a run whose epochs \<open>0, 1, ...\<close> have the validation accuracies \<open>vs\<close>, epoch
  \<open>i\<close> is reported as best exactly when its accuracy is strictly greater than that of every
  earlier epoch. One update reports best exactly when the state is the initial one or the
  accuracy is strictly above the best value; it then stores the accuracy with the epoch,
  and otherwise leaves the state. Of two consecutive epochs with the same accuracy the
  second is not best
\<close>

theorem best_tracker_strict:
  "(i < length vs \<longrightarrow>
      fst (track_seq Worst 0 (map Num vs)) ! i = (\<forall>j<i. vs ! j < vs ! i)) \<and>
   (fst (best_update bs e (Num v)) = (case bs of Worst \<Rightarrow> True | Best b e' \<Rightarrow> b < v)) \<and>
   (fst (best_update bs e (Num v)) \<longrightarrow> snd (best_update bs e (Num v)) = Best v e) \<and>
   (\<not> fst (best_update bs e x) \<longrightarrow> snd (best_update bs e x) = bs) \<and>
   (Suc i < length vs \<and> vs ! Suc i = vs ! i \<longrightarrow>
      \<not> fst (track_seq Worst 0 (map Num vs)) ! Suc i)"
proof -
  have a: "i < length vs \<longrightarrow>
      fst (track_seq Worst 0 (map Num vs)) ! i = (\<forall>j<i. vs ! j < vs ! i)"
    using track_seq_flags[of i vs Worst 0] by (simp add: above_def)
  have b: "fst (best_update bs e (Num v)) = (case bs of Worst \<Rightarrow> True | Best b e' \<Rightarrow> b < v)"
    by (simp add: best_update_def split: best_state.splits)
  have c: "fst (best_update bs e (Num v)) \<longrightarrow> snd (best_update bs e (Num v)) = Best v e"
    by (simp add: best_update_def split: best_state.splits)
  have d: "\<not> fst (best_update bs e x) \<longrightarrow> snd (best_update bs e x) = bs"
    by (simp add: best_update_def split: best_state.splits npfloat.splits)
  have "Suc i < length vs \<and> vs ! Suc i = vs ! i \<longrightarrow>
      \<not> fst (track_seq Worst 0 (map Num vs)) ! Suc i"
  proof (intro impI, elim conjE)
    assume l: "Suc i < length vs" and eq: "vs ! Suc i = vs ! i"
    have "fst (track_seq Worst 0 (map Num vs)) ! Suc i = (\<forall>j<Suc i. vs ! j < vs ! Suc i)"
      using track_seq_flags[OF l, of Worst 0] by (simp add: above_def)
    moreover have "\<not> (\<forall>j<Suc i. vs ! j < vs ! Suc i)" using eq by auto
    ultimately show "\<not> fst (track_seq Worst 0 (map Num vs)) ! Suc i" by simp
  qed
  then show ?thesis using a b c d by blast
qed

theorem best_tracker_strict_witness:
  "(0::nat) < length [8 / 10, 8 / 10, 9 / 10 :: rat] \<and>
   Suc 0 < length [8 / 10, 8 / 10, 9 / 10 :: rat] \<and>
   [8 / 10, 8 / 10, 9 / 10 :: rat] ! Suc 0 = [8 / 10, 8 / 10, 9 / 10] ! 0 \<and>
   fst (best_update Worst 0 (Num (8 / 10))) \<and>
   \<not> fst (best_update (Best (8 / 10) 0) 1 (Num (8 / 10))) \<and>
   fst (track_seq Worst 0 (map Num [8 / 10, 8 / 10, 9 / 10])) ! 0 \<and>
   \<not> fst (track_seq Worst 0 (map Num [8 / 10, 8 / 10, 9 / 10])) ! Suc 0 \<and>
   snd (best_update Worst 0 (Num (8 / 10))) = Best (8 / 10) 0 \<and>
   snd (best_update (Best (8 / 10) 0) 1 (Num (8 / 10))) = Best (8 / 10) 0"
proof -
  have h1: "(0::nat) < length [8 / 10, 8 / 10, 9 / 10 :: rat]" by simp
  have h2: "Suc 0 < length [8 / 10, 8 / 10, 9 / 10 :: rat]" by simp
  have h3: "[8 / 10, 8 / 10, 9 / 10 :: rat] ! Suc 0 = [8 / 10, 8 / 10, 9 / 10] ! 0" by simp
  have h4: "fst (best_update Worst 0 (Num (8 / 10)))" by (simp add: best_update_def)
  have h5: "\<not> fst (best_update (Best (8 / 10) 0) 1 (Num (8 / 10)))" by (simp add: best_update_def)
  show ?thesis
    using h1 h2 h3 h4 h5
      best_tracker_strict[of 0 "[8 / 10, 8 / 10, 9 / 10]" Worst 0 "8 / 10" "Num (8 / 10)"]
      best_tracker_strict[of 0 "[8 / 10, 8 / 10, 9 / 10]" "Best (8 / 10) 0" 1 "8 / 10" "Num (8 / 10)"]
    by simp
qed

text \<open>
  C6. With a learner that raises nothing, \<^verbatim>\<open>run_epoch\<close> runs the training phase, then
  the evaluation phase on the validation loader from the state the training left, then
  the evaluation phase on the test loader, both under the validation budget, and returns
  the eight keys in the order epoch, train_loss, train_acc, train_grad, valid_loss,
  valid_acc, test_loss, test_acc, filled from the three summaries and the epoch
\<close>

theorem run_epoch_order:
  assumes "learner_total C"
  shows "\<exists>trl tra trg vl va tel tea s1 s2 s3.
     train a C train_loader s = (Inr (trl, tra, trg), s1) \<and>
     valid a C valid_loader s1 = (Inr (vl, va), s2) \<and>
     valid a C test_loader s2 = (Inr (tel, tea), s3) \<and>
     run_epoch epoch a C train_loader valid_loader test_loader s =
       (Inr [(''epoch'', IntV epoch), (''train_loss'', FloatV trl), (''train_acc'', FloatV tra),
             (''train_grad'', FloatV trg), (''valid_loss'', FloatV vl), (''valid_acc'', FloatV va),
             (''test_loss'', FloatV tel), (''test_acc'', FloatV tea)], s3) \<and>
     snd s3 = snd s @
       map (\<lambda>b. OuterLoop b True) (take (phase_len (num_train_batches a) 0) train_loader) @
       map (\<lambda>b. OuterLoop b False) (take (phase_len (num_valid_batches a) 0) valid_loader) @
       map (\<lambda>b. OuterLoop b False) (take (phase_len (num_valid_batches a) 0) test_loader)"
proof -
  have tot: "\<forall>b w. \<not> isl (fst (outer_loop_train C b w))" "\<forall>b w. \<not> isl (fst (outer_loop_eval C b w))"
    using assms by (simp_all add: learner_total_def)
  obtain w tr where s: "s = (w, tr)" by (cases s)
  obtain r1 w1 tr1 where p1: "train a C train_loader (w, tr) = (Inr r1, (w1, tr1))"
    and t1: "tr1 = tr @ map (\<lambda>b. OuterLoop b True) (take (phase_len (num_train_batches a) 0) train_loader)"
    using train_run[OF tot(1), of a train_loader w tr] by (auto split: prod.splits)
  obtain r2 w2 tr2 where p2: "valid a C valid_loader (w1, tr1) = (Inr r2, (w2, tr2))"
    and t2: "tr2 = tr1 @ map (\<lambda>b. OuterLoop b False) (take (phase_len (num_valid_batches a) 0) valid_loader)"
    using valid_run[OF tot(2), of a valid_loader w1 tr1] by (auto split: prod.splits)
  obtain r3 w3 tr3 where p3: "valid a C test_loader (w2, tr2) = (Inr r3, (w3, tr3))"
    and t3: "tr3 = tr2 @ map (\<lambda>b. OuterLoop b False) (take (phase_len (num_valid_batches a) 0) test_loader)"
    using valid_run[OF tot(2), of a test_loader w2 tr2] by (auto split: prod.splits)
  obtain trl tra trg where r1: "r1 = (trl, tra, trg)" by (cases r1) auto
  obtain vl va where r2: "r2 = (vl, va)" by (cases r2) auto
  obtain tel tea where r3: "r3 = (tel, tea)" by (cases r3) auto
  have "run_epoch epoch a C train_loader valid_loader test_loader s =
       (Inr [(''epoch'', IntV epoch), (''train_loss'', FloatV trl), (''train_acc'', FloatV tra),
             (''train_grad'', FloatV trg), (''valid_loss'', FloatV vl), (''valid_acc'', FloatV va),
             (''test_loss'', FloatV tel), (''test_acc'', FloatV tea)], (w3, tr3))"
    using s p1 p2 p3 r1 r2 r3 by (simp add: run_epoch_def)
  then show ?thesis using s p1 p2 p3 r1 r2 r3 t1 t2 t3 by simp
qed

theorem run_epoch_order_witness:
  "learner_total stub \<and>
   run_epoch 0 stub_args stub [0, 1, 2, 3, 4] [10, 11, 12] [20, 21] (0, []) =
     (Inr [(''epoch'', IntV 0), (''train_loss'', FloatV (Num 1)), (''train_acc'', FloatV (Num (1 / 2))),
           (''train_grad'', FloatV (Num 0)), (''valid_loss'', FloatV (Num 2)),
           (''valid_acc'', FloatV (Num (3 / 10))), (''test_loss'', FloatV (Num 2)),
           (''test_acc'', FloatV (Num (3 / 10)))],
      (3, [OuterLoop 0 True, OuterLoop 1 True, OuterLoop 2 True, OuterLoop 10 False,
           OuterLoop 11 False, OuterLoop 20 False, OuterLoop 21 False]))"
proof -
  have h: "learner_total stub" by (simp add: learner_total_def stub_def)
  have t: "train stub_args stub [0, 1, 2, 3, 4] (0, []) =
      (Inr (Num 1, Num (1 / 2), Num 0), (3, [OuterLoop 0 True, OuterLoop 1 True, OuterLoop 2 True]))"
    by code_simp
  from run_epoch_order[OF h, of stub_args "[0, 1, 2, 3, 4]" "(0, [])" "[10, 11, 12]" "[20, 21]" 0]
  obtain trl tra trg vl va tel tea s1 s2 s3 where
    p1: "train stub_args stub [0, 1, 2, 3, 4] (0, []) = (Inr (trl, tra, trg), s1)" and
    p2: "valid stub_args stub [10, 11, 12] s1 = (Inr (vl, va), s2)" and
    p3: "valid stub_args stub [20, 21] s2 = (Inr (tel, tea), s3)" and
    re: "run_epoch 0 stub_args stub [0, 1, 2, 3, 4] [10, 11, 12] [20, 21] (0, []) =
       (Inr [(''epoch'', IntV 0), (''train_loss'', FloatV trl), (''train_acc'', FloatV tra),
             (''train_grad'', FloatV trg), (''valid_loss'', FloatV vl), (''valid_acc'', FloatV va),
             (''test_loss'', FloatV tel), (''test_acc'', FloatV tea)], s3)"
    by blast
  have e1: "trl = Num 1" "tra = Num (1 / 2)" "trg = Num 0"
    "s1 = (3, [OuterLoop 0 True, OuterLoop 1 True, OuterLoop 2 True])"
    using p1 t by simp_all
  have v: "valid stub_args stub [10, 11, 12] (3, [OuterLoop 0 True, OuterLoop 1 True, OuterLoop 2 True]) =
      (Inr (Num 2, Num (3 / 10)),
       (3, [OuterLoop 0 True, OuterLoop 1 True, OuterLoop 2 True, OuterLoop 10 False, OuterLoop 11 False]))"
    by code_simp
  have e2: "vl = Num 2" "va = Num (3 / 10)"
    "s2 = (3, [OuterLoop 0 True, OuterLoop 1 True, OuterLoop 2 True, OuterLoop 10 False, OuterLoop 11 False])"
    using p2 v e1 by simp_all
  have v': "valid stub_args stub [20, 21]
       (3, [OuterLoop 0 True, OuterLoop 1 True, OuterLoop 2 True, OuterLoop 10 False, OuterLoop 11 False]) =
      (Inr (Num 2, Num (3 / 10)),
       (3, [OuterLoop 0 True, OuterLoop 1 True, OuterLoop 2 True, OuterLoop 10 False,
            OuterLoop 11 False, OuterLoop 20 False, OuterLoop 21 False]))"
    by code_simp
  have e3: "tel = Num 2" "tea = Num (3 / 10)"
    "s3 = (3, [OuterLoop 0 True, OuterLoop 1 True, OuterLoop 2 True, OuterLoop 10 False,
            OuterLoop 11 False, OuterLoop 20 False, OuterLoop 21 False])"
    using p3 v' e2 by simp_all
  show ?thesis using h re unfolding e1 e2 e3 by simp
qed

text \<open>
  C7. On a stream with fewer batches than the budget and a learner that raises
  nothing, either phase returns normally, with the summary over the metrics of all the
  batches of the stream, each fed once and in order
\<close>

theorem short_stream_ends_early:
  assumes "learner_total C"
    and "int (length bs) < num_train_batches a"
    and "int (length bs) < num_valid_batches a"
  shows "train a C bs (w, tr) =
       (Inr (train_summary (map fst (fst (feed_train C bs w)),
                            map (fst \<circ> snd) (fst (feed_train C bs w)),
                            map (snd \<circ> snd) (fst (feed_train C bs w)))),
        (snd (feed_train C bs w), tr @ map (\<lambda>b. OuterLoop b True) bs)) \<and>
     length (fst (feed_train C bs w)) = length bs \<and>
     valid a C bs (w, tr) =
       (Inr (valid_summary (map fst (fst (feed_eval C bs w)), map snd (fst (feed_eval C bs w)))),
        (snd (feed_eval C bs w), tr @ map (\<lambda>b. OuterLoop b False) bs)) \<and>
     length (fst (feed_eval C bs w)) = length bs"
proof -
  have tot: "\<forall>b w. \<not> isl (fst (outer_loop_train C b w))" "\<forall>b w. \<not> isl (fst (outer_loop_eval C b w))"
    using assms(1) by (simp_all add: learner_total_def)
  have n1: "length bs \<le> phase_len (num_train_batches a) 0"
    using assms(2) by (simp add: phase_len_def max_def)
  have n2: "length bs \<le> phase_len (num_valid_batches a) 0"
    using assms(3) by (simp add: phase_len_def max_def)
  have t: "train a C bs (w, tr) =
       (Inr (train_summary (map fst (fst (feed_train C bs w)),
                            map (fst \<circ> snd) (fst (feed_train C bs w)),
                            map (snd \<circ> snd) (fst (feed_train C bs w)))),
        (snd (feed_train C bs w), tr @ map (\<lambda>b. OuterLoop b True) bs))"
    using train_run[OF tot(1), of a bs w tr] n1 by (simp split: prod.splits)
  have v: "valid a C bs (w, tr) =
       (Inr (valid_summary (map fst (fst (feed_eval C bs w)), map snd (fst (feed_eval C bs w)))),
        (snd (feed_eval C bs w), tr @ map (\<lambda>b. OuterLoop b False) bs))"
    using valid_run[OF tot(2), of a bs w tr] n2 by (simp split: prod.splits)
  show ?thesis using t v length_feed_train[OF tot(1)] length_feed_eval[OF tot(2)] by simp
qed

theorem short_stream_ends_early_witness:
  "learner_total stub \<and>
   int (length [7, 8 :: nat]) < num_train_batches (stub_args\<lparr>num_train_batches := 5, num_valid_batches := 4\<rparr>) \<and>
   int (length [7, 8 :: nat]) < num_valid_batches (stub_args\<lparr>num_train_batches := 5, num_valid_batches := 4\<rparr>) \<and>
   train (stub_args\<lparr>num_train_batches := 5, num_valid_batches := 4\<rparr>) stub [7, 8] (0, []) =
     (Inr (Num 1, Num (1 / 2), Num 0), (2, [OuterLoop 7 True, OuterLoop 8 True])) \<and>
   valid (stub_args\<lparr>num_train_batches := 5, num_valid_batches := 4\<rparr>) stub [7, 8] (0, []) =
     (Inr (Num 2, Num (3 / 10)), (0, [OuterLoop 7 False, OuterLoop 8 False]))"
proof -
  let ?a = "stub_args\<lparr>num_train_batches := 5, num_valid_batches := 4\<rparr>"
  have h1: "learner_total stub" by (simp add: learner_total_def stub_def)
  have h2: "int (length [7, 8 :: nat]) < num_train_batches ?a" by (simp add: stub_args_def)
  have h3: "int (length [7, 8 :: nat]) < num_valid_batches ?a" by (simp add: stub_args_def)
  have f1: "feed_train stub [7, 8] 0 = ([(1, 1 / 2, 0), (1, 1 / 2, 0)], 2)"
    by (simp add: stub_def)
  have f2: "feed_eval stub [7, 8] 0 = ([(2, 3 / 10), (2, 3 / 10)], 0)"
    by (simp add: stub_def)
  have s1: "train_summary ([1, 1], [1 / 2, 1 / 2], [0, 0]) = (Num 1, Num (1 / 2), Num 0)"
    by code_simp
  have s2: "valid_summary ([2, 2], [3 / 10, 3 / 10]) = (Num 2, Num (3 / 10))"
    by code_simp
  show ?thesis
    using h1 h2 h3 short_stream_ends_early[OF h1 h2 h3, of 0 "[]"] f1 f2 s1 s2
    by simp
qed







end
